theory Spec2Isabelle
  imports Complex_Main
begin

section \<open>Data model\<close>

text \<open>
  The two tables of \<^verbatim>\<open>supabase/migrations/20250629071101_hidden_term.sql\<close>.
  A \<^verbatim>\<open>uuid\<close> and a \<^verbatim>\<open>text\<close> are strings, a \<^verbatim>\<open>timestamptz\<close> is a point on an
  abstract clock, a nullable column is an \<open>option\<close>. The two \<^verbatim>\<open>CHECK\<close> constraints
  enumerate the values of \<^verbatim>\<open>user_type\<close> and \<^verbatim>\<open>status\<close>, which become datatypes.
\<close>

type_synonym uuid = string
type_synonym timestamptz = nat

datatype user_type = Donor | Shelter | Volunteer

datatype status = Pending | Accepted | Completed | Cancelled

record profile =
  profile_id :: uuid
  email :: string
  name :: string
  user_type :: user_type
  phone :: "string option"
  profile_created_at :: timestamptz

record donation =
  donation_id :: uuid
  donor_name :: string
  food_type :: string
  quantity :: string
  pickup_location :: string
  pickup_coordinates :: "string option"
  status :: status
  shelter_id :: "uuid option"
  donor_id :: uuid
  volunteer_id :: "uuid option"
  created_at :: timestamptz
  accepted_at :: "timestamptz option"
  completed_at :: "timestamptz option"
  notes' :: "string option"

text \<open>A table is a map from its primary key \<^verbatim>\<open>id\<close> to the row.\<close>

type_synonym profiles = "uuid \<rightharpoonup> profile"
type_synonym donations = "uuid \<rightharpoonup> donation"

datatype pg_error = Rls_violation | Unique_violation | Foreign_key_violation

section \<open>Row level security on \<^verbatim>\<open>donations\<close>\<close>

text \<open>
  The sub-select \<^verbatim>\<open>uid() IN (SELECT profiles.id FROM profiles WHERE profiles.user_type = t)\<close>
  of the policies: the caller has a profile row and its \<^verbatim>\<open>user_type\<close> is \<open>t\<close>.
\<close>

definition has_user_type :: "profiles \<Rightarrow> uuid \<Rightarrow> user_type \<Rightarrow> bool" where
  "has_user_type ps uid t = (case ps uid of None \<Rightarrow> False | Some p \<Rightarrow> user_type p = t)"

text \<open>The three \<^verbatim>\<open>FOR SELECT\<close> policies (\<^verbatim>\<open>USING\<close> expressions).\<close>

definition donors_can_read_own_donations :: "uuid \<Rightarrow> donation \<Rightarrow> bool" where
  "donors_can_read_own_donations uid d = (uid = donor_id d)"

definition shelters_can_read_pending_donations :: "profiles \<Rightarrow> uuid \<Rightarrow> donation \<Rightarrow> bool" where
  "shelters_can_read_pending_donations ps uid d =
     (status d = Pending \<or>
      (shelter_id d \<noteq> None \<and> shelter_id d = Some uid \<and> has_user_type ps uid Shelter))"

definition volunteers_can_read_accepted_donations :: "profiles \<Rightarrow> uuid \<Rightarrow> donation \<Rightarrow> bool" where
  "volunteers_can_read_accepted_donations ps uid d =
     ((status d = Accepted \<or> status d = Completed) \<and> has_user_type ps uid Volunteer)"

text \<open>Permissive policies of one command are combined with \<^verbatim>\<open>OR\<close>.\<close>

definition select_policy :: "profiles \<Rightarrow> uuid \<Rightarrow> donation \<Rightarrow> bool" where
  "select_policy ps uid d =
     (donors_can_read_own_donations uid d \<or>
      shelters_can_read_pending_donations ps uid d \<or>
      volunteers_can_read_accepted_donations ps uid d)"

text \<open>A read of one row by its id, as the caller \<open>uid\<close>: a row the policies hide is absent.\<close>

definition select_by_id :: "profiles \<Rightarrow> uuid \<Rightarrow> uuid \<Rightarrow> donations \<Rightarrow> donation option" where
  "select_by_id ps uid i ds =
     (case ds i of
        None \<Rightarrow> None
      | Some d \<Rightarrow> if select_policy ps uid d then Some d else None)"

text \<open>
  The read rule in the words of the specification (section 4.1, as the claim reads it):
  the pending case is for shelter-role actors.
\<close>

definition spec_read_allowed :: "profiles \<Rightarrow> uuid \<Rightarrow> donation \<Rightarrow> bool" where
  "spec_read_allowed ps uid d =
     (uid = donor_id d \<or>
      (status d = Pending \<and> has_user_type ps uid Shelter) \<or>
      (has_user_type ps uid Shelter \<and> shelter_id d = Some uid) \<or>
      (has_user_type ps uid Volunteer \<and> (status d = Accepted \<or> status d = Completed)))"

text \<open>The \<^verbatim>\<open>FOR INSERT\<close> policy and the two \<^verbatim>\<open>FOR UPDATE\<close> policies.\<close>

definition donors_can_create_donations :: "uuid \<Rightarrow> donation \<Rightarrow> bool" where
  "donors_can_create_donations uid d = (uid = donor_id d)"

definition shelters_can_update_using :: "profiles \<Rightarrow> uuid \<Rightarrow> donation \<Rightarrow> bool" where
  "shelters_can_update_using ps uid d = (status d = Pending \<and> has_user_type ps uid Shelter)"

definition shelters_can_update_check :: "uuid \<Rightarrow> donation \<Rightarrow> bool" where
  "shelters_can_update_check uid d = (status d = Accepted \<and> shelter_id d = Some uid)"

definition volunteers_can_update_using :: "profiles \<Rightarrow> uuid \<Rightarrow> donation \<Rightarrow> bool" where
  "volunteers_can_update_using ps uid d = (status d = Accepted \<and> has_user_type ps uid Volunteer)"

definition volunteers_can_update_check :: "donation \<Rightarrow> bool" where
  "volunteers_can_update_check d = (status d = Completed)"

definition update_using :: "profiles \<Rightarrow> uuid \<Rightarrow> donation \<Rightarrow> bool" where
  "update_using ps uid d =
     (shelters_can_update_using ps uid d \<or> volunteers_can_update_using ps uid d)"

definition update_check :: "uuid \<Rightarrow> donation \<Rightarrow> bool" where
  "update_check uid d = (shelters_can_update_check uid d \<or> volunteers_can_update_check d)"

text \<open>The trigger \<^verbatim>\<open>donation_status_timestamps\<close>, \<^verbatim>\<open>BEFORE UPDATE FOR EACH ROW\<close>.\<close>

definition update_donation_timestamps :: "timestamptz \<Rightarrow> donation \<Rightarrow> donation \<Rightarrow> donation" where
  "update_donation_timestamps now NEW OLD =
     (let NEW1 = (if status NEW = Accepted \<and> status OLD = Pending
                  then NEW\<lparr>accepted_at := Some now\<rparr> else NEW);
          NEW2 = (if status NEW1 = Completed \<and> status OLD = Accepted
                  then NEW1\<lparr>completed_at := Some now\<rparr> else NEW1)
      in NEW2)"

text \<open>
  The two foreign keys of \<^verbatim>\<open>donations\<close> into \<^verbatim>\<open>profiles\<close>: a reference that is not
  null names an existing profile. An update checks the references it changes.
\<close>

definition references_profile :: "profiles \<Rightarrow> uuid option \<Rightarrow> bool" where
  "references_profile ps r = (case r of None \<Rightarrow> True | Some k \<Rightarrow> ps k \<noteq> None)"

definition foreign_keys_on_insert :: "profiles \<Rightarrow> donation \<Rightarrow> bool" where
  "foreign_keys_on_insert ps NEW =
     (references_profile ps (shelter_id NEW) \<and> references_profile ps (volunteer_id NEW))"

definition foreign_keys_on_update :: "profiles \<Rightarrow> donation \<Rightarrow> donation \<Rightarrow> bool" where
  "foreign_keys_on_update ps OLD NEW =
     ((shelter_id NEW = shelter_id OLD \<or> references_profile ps (shelter_id NEW)) \<and>
      (volunteer_id NEW = volunteer_id OLD \<or> references_profile ps (volunteer_id NEW)))"

text \<open>
  \<^verbatim>\<open>UPDATE donations SET ... WHERE id = i\<close> issued by the authenticated user \<open>uid\<close>.
  The statement reads the table (its \<^verbatim>\<open>WHERE\<close> clause), so the select policies apply
  to it next to the update policies. A row that the \<^verbatim>\<open>USING\<close> expressions do not admit
  is not a target of the statement: nothing is written and no error is raised. For a
  target row the trigger runs on the new row, then the \<^verbatim>\<open>WITH CHECK\<close> expressions
  decide: a new row they reject raises an error and nothing is written. Statements on one
  row are atomic: of two that race, the second sees the row the first has written.
\<close>

definition update_donations ::
  "profiles \<Rightarrow> uuid \<Rightarrow> timestamptz \<Rightarrow> (donation \<Rightarrow> donation) \<Rightarrow> uuid \<Rightarrow> donations
     \<Rightarrow> pg_error + donations" where
  "update_donations ps uid now set_clause i ds =
     (case ds i of
        None \<Rightarrow> Inr ds
      | Some OLD \<Rightarrow>
          if \<not> (select_policy ps uid OLD \<and> update_using ps uid OLD) then Inr ds
          else
            (let NEW = update_donation_timestamps now (set_clause OLD) OLD in
               if \<not> (update_check uid NEW \<and> select_policy ps uid NEW) then Inl Rls_violation
               else if \<not> foreign_keys_on_update ps OLD NEW then Inl Foreign_key_violation
               else Inr (ds(i \<mapsto> NEW))))"

text \<open>
  \<^verbatim>\<open>INSERT INTO donations ... RETURNING *\<close> by \<open>uid\<close>: the new row must pass the insert
  policy, be readable by the caller (it is returned) and have a fresh primary key.
\<close>

definition insert_donation ::
  "profiles \<Rightarrow> uuid \<Rightarrow> donation \<Rightarrow> donations \<Rightarrow> pg_error + (donation \<times> donations)" where
  "insert_donation ps uid row ds =
     (if \<not> donors_can_create_donations uid row then Inl Rls_violation
      else if \<not> select_policy ps uid row then Inl Rls_violation
      else if ds (donation_id row) \<noteq> None then Inl Unique_violation
      else if \<not> foreign_keys_on_insert ps row then Inl Foreign_key_violation
      else Inr (row, ds(donation_id row \<mapsto> row)))"

section \<open>The client: geocoding helper (\<^verbatim>\<open>lib/supabase.ts\<close>)\<close>

text \<open>
  A string is the list of its code units. \<^verbatim>\<open>String.prototype.toLowerCase\<close> is the
  language's, with its case mapping of every script: the functions that call it take it
  as the parameter \<open>toLowerCase\<close>. \<open>includes'\<close> is \<^verbatim>\<open>String.prototype.includes\<close>, the
  search for a contiguous occurrence.
\<close>

record coords =
  lat :: real
  lng :: real

fun startsWith :: "string \<Rightarrow> string \<Rightarrow> bool" where
  "startsWith s [] = True"
| "startsWith [] (c # t) = False"
| "startsWith (x # s) (c # t) = (x = c \<and> startsWith s t)"

fun includes' :: "string \<Rightarrow> string \<Rightarrow> bool" where
  "includes' [] t = (t = [])"
| "includes' (x # s) t = (startsWith (x # s) t \<or> includes' s t)"

definition mockCoordinates :: "(string \<times> coords) list" where
  "mockCoordinates =
     [(''New York'', \<lparr>lat = 40.7128, lng = - 74.0060\<rparr>),
      (''Los Angeles'', \<lparr>lat = 34.0522, lng = - 118.2437\<rparr>),
      (''Chicago'', \<lparr>lat = 41.8781, lng = - 87.6298\<rparr>),
      (''Houston'', \<lparr>lat = 29.7604, lng = - 95.3698\<rparr>),
      (''Phoenix'', \<lparr>lat = 33.4484, lng = - 112.0740\<rparr>)]"

definition default_coordinates :: coords where
  "default_coordinates = \<lparr>lat = 37.7749, lng = - 122.4194\<rparr>"

text \<open>
  The \<^verbatim>\<open>for\<close> loop over \<^verbatim>\<open>Object.entries(mockCoordinates)\<close>: \<open>Some\<close> is the
  \<^verbatim>\<open>return coords\<close> inside the loop, \<open>None\<close> is the loop running to its end.
\<close>

fun geocode_loop ::
  "(string \<Rightarrow> string) \<Rightarrow> string \<Rightarrow> (string \<times> coords) list \<Rightarrow> coords option" where
  "geocode_loop toLowerCase address [] = None"
| "geocode_loop toLowerCase address ((city, c) # rest) =
     (if includes' (toLowerCase address) (toLowerCase city) then Some c
      else geocode_loop toLowerCase address rest)"

text \<open>The result type is \<^verbatim>\<open>{ lat; lng } | null\<close>: \<open>None\<close> is \<^verbatim>\<open>null\<close>.\<close>

definition geocodeAddress :: "(string \<Rightarrow> string) \<Rightarrow> string \<Rightarrow> coords option" where
  "geocodeAddress toLowerCase address =
     (case geocode_loop toLowerCase address mockCoordinates of
        Some c \<Rightarrow> Some c
      | None \<Rightarrow> Some default_coordinates)"

text \<open>
  What the language's \<^verbatim>\<open>toLowerCase\<close> does to a string of ASCII characters: each of
  the letters \<^verbatim>\<open>A\<close> to \<^verbatim>\<open>Z\<close> becomes its small letter, every other character stays.
\<close>

definition ascii_lower_char :: "char \<Rightarrow> char" where
  "ascii_lower_char c =
     (case map_of (zip ''ABCDEFGHIJKLMNOPQRSTUVWXYZ'' ''abcdefghijklmnopqrstuvwxyz'') c of
        None \<Rightarrow> c
      | Some l \<Rightarrow> l)"

definition ascii_lower :: "string \<Rightarrow> string" where
  "ascii_lower s = map ascii_lower_char s"

section \<open>The client: routes and the three lifecycle handlers\<close>

text \<open>
  What the caller of a handler sees: the handler returned at its guard, the route sent
  the caller elsewhere, the success alert, the failure alert of the \<^verbatim>\<open>catch\<close> block,
  or the success modal of the donation form with the created record.
\<close>

datatype outcome =
    Returned
  | Redirected
  | Alert_success
  | Alert_failure
  | Success_modal donation

datatype route = Navigate_auth | Navigate_home | Render

text \<open>
  \<^verbatim>\<open>ProtectedRoute\<close> (once loading is over): the page is rendered for a signed-in
  user whose profile has the required \<^verbatim>\<open>userType\<close>.
\<close>

definition ProtectedRoute :: "uuid option \<Rightarrow> profile option \<Rightarrow> user_type option \<Rightarrow> route" where
  "ProtectedRoute user profile userType =
     (if user = None then Navigate_auth
      else if userType \<noteq> None \<and> map_option user_type profile \<noteq> userType then Navigate_home
      else Render)"

text \<open>
  \<^verbatim>\<open>fetchProfile\<close>: the session's profile is the caller's own row of \<^verbatim>\<open>profiles\<close>
  (\<^verbatim>\<open>maybeSingle\<close>: \<^verbatim>\<open>null\<close> when there is none).
\<close>

definition fetchProfile :: "profiles \<Rightarrow> uuid \<Rightarrow> profile option" where
  "fetchProfile ps userId = ps userId"

text \<open>
  \<^verbatim>\<open>acceptDonation\<close> of \<^verbatim>\<open>IncomingRequests.tsx\<close>. The update names the row by its id
  only. The \<^verbatim>\<open>catch\<close> block (the failure alert) runs when the request returns an error.
\<close>

definition acceptDonation ::
  "profiles \<Rightarrow> timestamptz \<Rightarrow> uuid option \<Rightarrow> profile option \<Rightarrow> uuid \<Rightarrow> donations
     \<Rightarrow> outcome \<times> donations" where
  "acceptDonation ps now user profile donationId ds =
     (case user of
        None \<Rightarrow> (Returned, ds)
      | Some uid \<Rightarrow>
          (case profile of
             None \<Rightarrow> (Returned, ds)
           | Some p \<Rightarrow>
               (case update_donations ps uid now
                       (\<lambda>d. d\<lparr>status := Accepted, shelter_id := Some uid\<rparr>) donationId ds of
                  Inl error \<Rightarrow> (Alert_failure, ds)
                | Inr ds' \<Rightarrow> (Alert_success, ds'))))"

text \<open>
  \<^verbatim>\<open>completeDonation\<close> of \<^verbatim>\<open>MyPickups.tsx\<close>. Without a signed-in user the request
  is anonymous: the policies are \<^verbatim>\<open>TO authenticated\<close>, no row is a target, no error.
\<close>

definition completeDonation ::
  "profiles \<Rightarrow> timestamptz \<Rightarrow> uuid option \<Rightarrow> uuid \<Rightarrow> donations \<Rightarrow> outcome \<times> donations" where
  "completeDonation ps now user donationId ds =
     (case user of
        None \<Rightarrow> (Alert_success, ds)
      | Some uid \<Rightarrow>
          (case update_donations ps uid now
                  (\<lambda>d. d\<lparr>status := Completed, volunteer_id := Some uid\<rparr>) donationId ds of
             Inl error \<Rightarrow> (Alert_failure, ds)
           | Inr ds' \<Rightarrow> (Alert_success, ds')))"



text \<open>
  \<^verbatim>\<open>handleSubmit\<close> of the donation form. \<open>numStr\<close> is the language's rendering of a
  number in a template literal; \<open>new_id\<close> is the value \<^verbatim>\<open>gen_random_uuid()\<close> gives the
  row. \<open>inserted_row\<close> is the object passed to \<^verbatim>\<open>insert\<close>, the columns it leaves out
  at their defaults.
\<close>

record formData =
  form_donor_name :: string
  form_food_type :: string
  form_quantity :: string
  form_pickup_location :: string
  form_notes :: string

definition coordinates_text :: "(real \<Rightarrow> string) \<Rightarrow> coords \<Rightarrow> string" where
  "coordinates_text numStr c = ''('' @ numStr (lat c) @ '','' @ numStr (lng c) @ '')''"

definition inserted_row ::
  "(real \<Rightarrow> string) \<Rightarrow> timestamptz \<Rightarrow> uuid \<Rightarrow> uuid \<Rightarrow> coords option \<Rightarrow> formData \<Rightarrow> donation" where
  "inserted_row numStr now uid new_id finalCoordinates fd =
     \<lparr>donation_id = new_id,
      donor_name = form_donor_name fd,
      food_type = form_food_type fd,
      quantity = form_quantity fd,
      pickup_location = form_pickup_location fd,
      pickup_coordinates = map_option (coordinates_text numStr) finalCoordinates,
      status = Pending,
      shelter_id = None,
      donor_id = uid,
      volunteer_id = None,
      created_at = now,
      accepted_at = None,
      completed_at = None,
      notes' = (if form_notes fd = [] then None else Some (form_notes fd))\<rparr>"

definition handleSubmit ::
  "(real \<Rightarrow> string) \<Rightarrow> (string \<Rightarrow> string) \<Rightarrow> profiles \<Rightarrow> timestamptz \<Rightarrow> uuid \<Rightarrow> uuid option \<Rightarrow> coords option
     \<Rightarrow> formData \<Rightarrow> donations \<Rightarrow> outcome \<times> donations" where
  "handleSubmit numStr toLowerCase ps now new_id user coordinates fd ds =
     (case user of
        None \<Rightarrow> (Returned, ds)
      | Some uid \<Rightarrow>
          (let finalCoordinates =
                 (if coordinates = None \<and> form_pickup_location fd \<noteq> []
                  then geocodeAddress toLowerCase (form_pickup_location fd) else coordinates)
           in case insert_donation ps uid
                     (inserted_row numStr now uid new_id finalCoordinates fd) ds of
                Inl error \<Rightarrow> (Alert_failure, ds)
              | Inr (data, ds') \<Rightarrow> (Success_modal data, ds')))"

text \<open>
  The three operations as the application offers them (\<^verbatim>\<open>App.tsx\<close>): each page sits
  behind \<^verbatim>\<open>ProtectedRoute\<close> with the role it is for, and the session of the caller
  \<open>uid\<close> holds the profile \<^verbatim>\<open>fetchProfile\<close> loaded.
\<close>

datatype operation =
    Create uuid "coords option" formData
  | Accept uuid
  | Complete uuid

definition perform ::
  "(real \<Rightarrow> string) \<Rightarrow> (string \<Rightarrow> string) \<Rightarrow> profiles \<Rightarrow> timestamptz \<Rightarrow> uuid \<Rightarrow> operation \<Rightarrow> donations
     \<Rightarrow> outcome \<times> donations" where
  "perform numStr toLowerCase ps now uid op ds =
     (let user = Some uid; profile = fetchProfile ps uid in
        case op of
          Create new_id coordinates fd \<Rightarrow>
            if ProtectedRoute user profile (Some Donor) = Render
            then handleSubmit numStr toLowerCase ps now new_id user coordinates fd ds
            else (Redirected, ds)
        | Accept donationId \<Rightarrow>
            if ProtectedRoute user profile (Some Shelter) = Render
            then acceptDonation ps now user profile donationId ds
            else (Redirected, ds)
        | Complete donationId \<Rightarrow>
            if ProtectedRoute user profile (Some Volunteer) = Render
            then completeDonation ps now user donationId ds
            else (Redirected, ds))"

text \<open>
  The donation tables the application can reach from the empty table. The profiles
  table, the clock and the caller are free at every step.
\<close>

inductive reachable :: "donations \<Rightarrow> bool" where
  reachable_empty: "reachable Map.empty"
| reachable_perform: "reachable ds \<Longrightarrow> reachable (snd (perform numStr toLowerCase ps now uid op ds))"


text \<open>
  A run of \<^verbatim>\<open>Accept\<close> calls on one donation, in the order in which they reach the
  table. Each call is recorded with its caller, what the caller was told and whether the
  call changed the record.
\<close>

fun accept_calls ::
  "(real \<Rightarrow> string) \<Rightarrow> (string \<Rightarrow> string) \<Rightarrow> profiles \<Rightarrow> uuid \<Rightarrow> (uuid \<times> timestamptz) list \<Rightarrow> donations
     \<Rightarrow> (uuid \<times> outcome \<times> bool) list \<times> donations" where
  "accept_calls numStr toLowerCase ps i [] ds = ([], ds)"
| "accept_calls numStr toLowerCase ps i ((uid, now) # calls) ds =
     (let r = perform numStr toLowerCase ps now uid (Accept i) ds;
          rest = accept_calls numStr toLowerCase ps i calls (snd r)
      in ((uid, fst r, snd r i \<noteq> ds i) # fst rest, snd rest))"

definition changed_calls :: "(uuid \<times> outcome \<times> bool) list \<Rightarrow> (uuid \<times> outcome \<times> bool) list" where
  "changed_calls rs = filter (\<lambda>r. snd (snd r)) rs"

text \<open>A donation no \<^verbatim>\<open>Accept\<close> can take any more: it is absent or not pending.\<close>

definition settled :: "donations \<Rightarrow> uuid \<Rightarrow> bool" where
  "settled ds i = (case ds i of None \<Rightarrow> True | Some d \<Rightarrow> status d \<noteq> Pending)"

definition timestamps_invariant :: "donation \<Rightarrow> bool" where
  "timestamps_invariant d =
     ((accepted_at d \<noteq> None \<longleftrightarrow> (status d = Accepted \<or> status d = Completed)) \<and>
      (completed_at d \<noteq> None \<longleftrightarrow> status d = Completed))"

definition moves_forward :: "status \<Rightarrow> status \<Rightarrow> bool" where
  "moves_forward s s' =
     (s' = s \<or> (s = Pending \<and> s' = Accepted) \<or> (s = Accepted \<and> s' = Completed))"

section \<open>The client: notifications (\<^verbatim>\<open>NotificationSystem.tsx\<close>)\<close>

datatype notification_type = Success | Info | Warning | Error

record notification =
  notification_id :: string
  notification_type :: notification_type
  title :: string
  message :: string
  timestamp :: timestamptz
  read :: bool

text \<open>
  The payload of a change of \<^verbatim>\<open>donations\<close>: its \<^verbatim>\<open>eventType\<close>, the new record and,
  of the old record, the status the handler reads (\<open>None\<close> when the old record does not
  carry it).
\<close>

datatype payload =
    INSERT donation
  | UPDATE "status option" donation
  | DELETE

text \<open>The value of the variable \<^verbatim>\<open>notification\<close> at the end of the \<^verbatim>\<open>if\<close> chain.\<close>

fun notification_for :: "timestamptz \<Rightarrow> uuid option \<Rightarrow> profile \<Rightarrow> payload \<Rightarrow> notification option" where
  "notification_for now user profile (INSERT newRecord) =
     (if user_type profile = Shelter
      then Some \<lparr>notification_id = ''donation-'' @ donation_id newRecord,
                 notification_type = Info,
                 title = ''New Donation Available'',
                 message = donor_name newRecord @ '' has donated '' @ quantity newRecord
                           @ '' of '' @ food_type newRecord,
                 timestamp = now,
                 read = False\<rparr>
      else None)"
| "notification_for now user profile (UPDATE oldStatus newRecord) =
     (if oldStatus \<noteq> Some (status newRecord) then
        (if status newRecord = Accepted \<and> Some (donor_id newRecord) = user
         then Some \<lparr>notification_id = ''accepted-'' @ donation_id newRecord,
                    notification_type = Success,
                    title = ''Donation Accepted!'',
                    message = ''Your donation of '' @ quantity newRecord @ '' ''
                              @ food_type newRecord @ '' has been accepted by a shelter.'',
                    timestamp = now,
                    read = False\<rparr>
         else if status newRecord = Completed \<and> Some (donor_id newRecord) = user
         then Some \<lparr>notification_id = ''completed-'' @ donation_id newRecord,
                    notification_type = Success,
                    title = ''Donation Completed!'',
                    message = ''Your donation of '' @ quantity newRecord @ '' ''
                              @ food_type newRecord @ '' has been successfully delivered.'',
                    timestamp = now,
                    read = False\<rparr>
         else if status newRecord = Accepted \<and> user_type profile = Volunteer
         then Some \<lparr>notification_id = ''pickup-'' @ donation_id newRecord,
                    notification_type = Info,
                    title = ''New Pickup Available'',
                    message = ''Pickup needed: '' @ quantity newRecord @ '' of ''
                              @ food_type newRecord @ '' from '' @ donor_name newRecord,
                    timestamp = now,
                    read = False\<rparr>
         else None)
      else None)"
| "notification_for now user profile DELETE = None"

text \<open>\<^verbatim>\<open>handleDonationChange\<close>: the new value of the state \<^verbatim>\<open>notifications\<close>.\<close>

definition handleDonationChange ::
  "timestamptz \<Rightarrow> uuid option \<Rightarrow> profile option \<Rightarrow> payload \<Rightarrow> notification list
     \<Rightarrow> notification list" where
  "handleDonationChange now user profile p prev =
     (case profile of
        None \<Rightarrow> prev
      | Some pr \<Rightarrow>
          (case notification_for now user pr p of
             None \<Rightarrow> prev
           | Some n \<Rightarrow> n # take 9 prev))"

definition markAsRead :: "string \<Rightarrow> notification list \<Rightarrow> notification list" where
  "markAsRead i prev =
     map (\<lambda>notif. if notification_id notif = i then notif\<lparr>read := True\<rparr> else notif) prev"

definition clearNotification :: "string \<Rightarrow> notification list \<Rightarrow> notification list" where
  "clearNotification i prev = filter (\<lambda>notif. notification_id notif \<noteq> i) prev"

text \<open>
  Everything that writes the state \<^verbatim>\<open>notifications\<close> of one recipient: a change event,
  the two per-notification buttons and "Clear all". The state starts empty.
\<close>

datatype ui_event =
    Change timestamptz payload
  | Mark_read string
  | Clear string
  | Clear_all

fun ui_step :: "uuid option \<Rightarrow> profile option \<Rightarrow> notification list \<Rightarrow> ui_event \<Rightarrow> notification list" where
  "ui_step user profile prev (Change now p) = handleDonationChange now user profile p prev"
| "ui_step user profile prev (Mark_read i) = markAsRead i prev"
| "ui_step user profile prev (Clear i) = clearNotification i prev"
| "ui_step user profile prev Clear_all = []"

definition notifications_after :: "uuid option \<Rightarrow> profile option \<Rightarrow> ui_event list \<Rightarrow> notification list" where
  "notifications_after user profile events = foldl (ui_step user profile) [] events"

text \<open>
  The four cases of the dispatcher, in the words of the specification (section 4.4); an
  update "to" a status is an update whose prior status is another one.
\<close>

definition spec_notifies :: "uuid \<Rightarrow> profile \<Rightarrow> payload \<Rightarrow> bool" where
  "spec_notifies uid profile p =
     (case p of
        INSERT newRecord \<Rightarrow> user_type profile = Shelter
      | UPDATE oldStatus newRecord \<Rightarrow>
          oldStatus \<noteq> Some (status newRecord) \<and>
          ((status newRecord = Accepted \<and> donor_id newRecord = uid) \<or>
           (status newRecord = Accepted \<and> user_type profile = Volunteer) \<or>
           (status newRecord = Completed \<and> donor_id newRecord = uid))
      | DELETE \<Rightarrow> False)"

section \<open>The client: profiles (\<^verbatim>\<open>AuthContext.tsx\<close>)\<close>

text \<open>
  \<^verbatim>\<open>Partial<UserProfile>\<close>: every field may be absent. The policy "Users can update own
  profile" has \<^verbatim>\<open>USING (auth.uid() = id)\<close> and \<^verbatim>\<open>WITH CHECK (auth.uid() = id)\<close>.
\<close>

record profile_updates =
  updates_id :: "uuid option"
  updates_name :: "string option"
  updates_user_type :: "user_type option"
  updates_email :: "string option"
  updates_phone :: "string option option"
  updates_created_at :: "timestamptz option"

definition apply_updates :: "profile_updates \<Rightarrow> profile \<Rightarrow> profile" where
  "apply_updates u p =
     \<lparr>profile_id = (case updates_id u of None \<Rightarrow> profile_id p | Some v \<Rightarrow> v),
      email = (case updates_email u of None \<Rightarrow> email p | Some v \<Rightarrow> v),
      name = (case updates_name u of None \<Rightarrow> name p | Some v \<Rightarrow> v),
      user_type = (case updates_user_type u of None \<Rightarrow> user_type p | Some v \<Rightarrow> v),
      phone = (case updates_phone u of None \<Rightarrow> phone p | Some v \<Rightarrow> v),
      profile_created_at =
        (case updates_created_at u of None \<Rightarrow> profile_created_at p | Some v \<Rightarrow> v)\<rparr>"

definition update_profiles :: "uuid \<Rightarrow> profile_updates \<Rightarrow> uuid \<Rightarrow> profiles \<Rightarrow> pg_error + profiles" where
  "update_profiles uid u i ps =
     (case ps i of
        None \<Rightarrow> Inr ps
      | Some OLD \<Rightarrow>
          if uid \<noteq> profile_id OLD then Inr ps
          else
            (let NEW = apply_updates u OLD in
               if uid \<noteq> profile_id NEW then Inl Rls_violation
               else Inr (ps(i \<mapsto> NEW))))"

datatype client_error = No_user_logged_in | Request_error pg_error

text \<open>\<^verbatim>\<open>updateProfile\<close>: the update of the caller's row, then \<^verbatim>\<open>fetchProfile\<close>.\<close>

definition updateProfile ::
  "uuid option \<Rightarrow> profile_updates \<Rightarrow> profiles \<Rightarrow> client_error + (profile option \<times> profiles)" where
  "updateProfile user updates ps =
     (case user of
        None \<Rightarrow> Inl No_user_logged_in
      | Some uid \<Rightarrow>
          (case update_profiles uid updates uid ps of
             Inl error \<Rightarrow> Inl (Request_error error)
           | Inr ps' \<Rightarrow> Inr (fetchProfile ps' uid, ps')))"

section \<open>Sample data\<close>

definition sample_profile :: "uuid \<Rightarrow> user_type \<Rightarrow> profile" where
  "sample_profile i t =
     \<lparr>profile_id = i, email = i @ ''@example.org'', name = i, user_type = t,
      phone = None, profile_created_at = 0\<rparr>"

definition sample_profiles :: profiles where
  "sample_profiles =
     [''d1'' \<mapsto> sample_profile ''d1'' Donor,
      ''s1'' \<mapsto> sample_profile ''s1'' Shelter,
      ''s2'' \<mapsto> sample_profile ''s2'' Shelter,
      ''v1'' \<mapsto> sample_profile ''v1'' Volunteer]"

definition sample_form :: formData where
  "sample_form =
     \<lparr>form_donor_name = ''d1'', form_food_type = ''Prepared Meals'',
      form_quantity = ''10 meals'', form_pickup_location = ''5 Main St, Chicago'',
      form_notes = []\<rparr>"

definition sample_pending :: donation where
  "sample_pending =
     \<lparr>donation_id = ''x1'', donor_name = ''d1'', food_type = ''Prepared Meals'',
      quantity = ''10 meals'', pickup_location = ''5 Main St, Chicago'',
      pickup_coordinates = None, status = Pending, shelter_id = None, donor_id = ''d1'',
      volunteer_id = None, created_at = 1, accepted_at = None, completed_at = None,
      notes' = None\<rparr>"

definition sample_donations :: donations where
  "sample_donations = [''x1'' \<mapsto> sample_pending]"

definition sample_numStr :: "real \<Rightarrow> string" where
  "sample_numStr r = (if r < 0 then ''-n'' else ''n'')"

text \<open>The sample donation once \<^verbatim>\<open>s1\<close> has accepted it at time 2.\<close>

definition sample_taken :: donations where
  "sample_taken =
     sample_donations(''x1'' \<mapsto>
       sample_pending\<lparr>status := Accepted, shelter_id := Some ''s1'', accepted_at := Some 2\<rparr>)"

text \<open>Two profile updates: one carries a new role, the other only a new name.\<close>

definition sample_role_change :: profile_updates where
  "sample_role_change =
     \<lparr>updates_id = None, updates_name = None, updates_user_type = Some Shelter,
      updates_email = None, updates_phone = None, updates_created_at = None\<rparr>"

definition sample_rename :: profile_updates where
  "sample_rename =
     \<lparr>updates_id = None, updates_name = Some ''Dana'', updates_user_type = None,
      updates_email = None, updates_phone = None, updates_created_at = None\<rparr>"

text \<open>Ten insert events, at times 1 to 10.\<close>

definition sample_events :: "ui_event list" where
  "sample_events =
     map (\<lambda>k. Change k (INSERT sample_pending)) [1, 2, 3, 4, 5, 6, 7, 8, 9, 10]"

text \<open>One donation through its life: created by \<^verbatim>\<open>d1\<close>, accepted by \<^verbatim>\<open>s1\<close>, completed by \<^verbatim>\<open>v1\<close>.\<close>

definition sample_created :: donations where
  "sample_created =
     snd (perform sample_numStr ascii_lower sample_profiles 1 ''d1'' (Create ''x1'' None sample_form) Map.empty)"

definition sample_accepted :: donations where
  "sample_accepted =
     snd (perform sample_numStr ascii_lower sample_profiles 2 ''s1'' (Accept ''x1'') sample_created)"

definition sample_completed :: donations where
  "sample_completed =
     snd (perform sample_numStr ascii_lower sample_profiles 3 ''v1'' (Complete ''x1'') sample_accepted)"

section \<open>The operations, case by case\<close>

lemma has_user_type_unique:
  "has_user_type ps uid t \<Longrightarrow> has_user_type ps uid t' \<Longrightarrow> t = t'"
  by (auto simp: has_user_type_def split: option.splits)

lemma route_render:
  "ProtectedRoute (Some uid) (fetchProfile ps uid) (Some t) = Render \<longleftrightarrow> has_user_type ps uid t"
  by (auto simp: ProtectedRoute_def fetchProfile_def has_user_type_def split: option.splits)

lemma perform_Accept:
  "perform numStr toLowerCase ps now uid (Accept i) ds =
     (if has_user_type ps uid Shelter then
        (case ds i of
           None \<Rightarrow> (Alert_success, ds)
         | Some d \<Rightarrow>
             if status d = Pending
             then (Alert_success,
                   ds(i \<mapsto> d\<lparr>status := Accepted, shelter_id := Some uid, accepted_at := Some now\<rparr>))
             else (Alert_success, ds))
      else (Redirected, ds))"
proof (cases "has_user_type ps uid Shelter")
  case False
  then show ?thesis by (simp add: perform_def route_render)
next
  case True
  then obtain p where p: "ps uid = Some p" "user_type p = Shelter"
    by (auto simp: has_user_type_def split: option.splits)
  have nv: "\<not> has_user_type ps uid Volunteer"
    using True has_user_type_unique by fastforce
  show ?thesis
    using True p nv
    by (auto simp: perform_def ProtectedRoute_def acceptDonation_def fetchProfile_def
        update_donations_def select_policy_def donors_can_read_own_donations_def
        shelters_can_read_pending_donations_def volunteers_can_read_accepted_donations_def
        update_using_def shelters_can_update_using_def volunteers_can_update_using_def
        update_check_def shelters_can_update_check_def volunteers_can_update_check_def
        update_donation_timestamps_def foreign_keys_on_update_def references_profile_def
        Let_def split: option.splits)
qed

lemma perform_Complete:
  "perform numStr toLowerCase ps now uid (Complete i) ds =
     (if has_user_type ps uid Volunteer then
        (case ds i of
           None \<Rightarrow> (Alert_success, ds)
         | Some d \<Rightarrow>
             if status d = Accepted
             then (Alert_success,
                   ds(i \<mapsto> d\<lparr>status := Completed, volunteer_id := Some uid, completed_at := Some now\<rparr>))
             else (Alert_success, ds))
      else (Redirected, ds))"
proof (cases "has_user_type ps uid Volunteer")
  case False
  then show ?thesis by (simp add: perform_def route_render)
next
  case True
  then obtain p where p: "ps uid = Some p" "user_type p = Volunteer"
    by (auto simp: has_user_type_def split: option.splits)
  have nv: "\<not> has_user_type ps uid Shelter"
    using True has_user_type_unique by fastforce
  show ?thesis
    using True p nv
    by (auto simp: perform_def ProtectedRoute_def completeDonation_def fetchProfile_def
        update_donations_def select_policy_def donors_can_read_own_donations_def
        shelters_can_read_pending_donations_def volunteers_can_read_accepted_donations_def
        update_using_def shelters_can_update_using_def volunteers_can_update_using_def
        update_check_def shelters_can_update_check_def volunteers_can_update_check_def
        update_donation_timestamps_def foreign_keys_on_update_def references_profile_def
        Let_def split: option.splits)
qed

lemma perform_Create:
  "perform numStr toLowerCase ps now uid (Create new_id coordinates fd) ds =
     (if has_user_type ps uid Donor then
        (if ds new_id = None
         then (let row = inserted_row numStr now uid new_id
                           (if coordinates = None \<and> form_pickup_location fd \<noteq> []
                            then geocodeAddress toLowerCase (form_pickup_location fd) else coordinates) fd
               in (Success_modal row, ds(new_id \<mapsto> row)))
         else (Alert_failure, ds))
      else (Redirected, ds))"
  by (auto simp: perform_def route_render handleSubmit_def insert_donation_def inserted_row_def
      donors_can_create_donations_def select_policy_def donors_can_read_own_donations_def
      foreign_keys_on_insert_def references_profile_def Let_def)

lemma accept_keeps_timestamps:
  "timestamps_invariant d \<Longrightarrow> status d = Pending \<Longrightarrow>
     timestamps_invariant (d\<lparr>status := Accepted, shelter_id := Some uid, accepted_at := Some now\<rparr>)"
  by (auto simp: timestamps_invariant_def)

lemma complete_keeps_timestamps:
  "timestamps_invariant d \<Longrightarrow> status d = Accepted \<Longrightarrow>
     timestamps_invariant (d\<lparr>status := Completed, volunteer_id := Some uid, completed_at := Some now\<rparr>)"
  by (auto simp: timestamps_invariant_def)

lemma inserted_row_timestamps:
  "timestamps_invariant (inserted_row numStr now uid new_id finalCoordinates fd)"
  by (simp add: timestamps_invariant_def inserted_row_def)

lemma perform_timestamps:
  assumes inv: "\<And>j d. ds j = Some d \<Longrightarrow> timestamps_invariant d"
    and after: "snd (perform numStr toLowerCase ps now uid op ds) i = Some d'"
  shows "timestamps_invariant d'"
proof (cases op)
  case (Create new_id coordinates fd)
  with after inv show ?thesis
    by (auto simp: perform_Create inserted_row_timestamps Let_def split: if_splits)
next
  case (Accept j)
  with after inv show ?thesis
    by (auto simp: perform_Accept accept_keeps_timestamps split: if_splits option.splits)
next
  case (Complete j)
  with after inv show ?thesis
    by (auto simp: perform_Complete complete_keeps_timestamps split: if_splits option.splits)
qed

lemma reachable_timestamps: "reachable ds \<Longrightarrow> ds i = Some d \<Longrightarrow> timestamps_invariant d"
proof (induction arbitrary: i d rule: reachable.induct)
  case reachable_empty
  then show ?case by simp
next
  case (reachable_perform ds numStr toLowerCase ps now uid op)
  then show ?case using perform_timestamps by blast
qed

lemma perform_Accept_settled:
  "settled ds i \<Longrightarrow>
     perform numStr toLowerCase ps now uid (Accept i) ds =
       (if has_user_type ps uid Shelter then Alert_success else Redirected, ds)"
  by (auto simp: settled_def perform_Accept split: option.splits)

lemma accept_calls_settled:
  "settled ds i \<Longrightarrow> accept_calls numStr toLowerCase ps i calls ds = (rs, ds') \<Longrightarrow>
     ds' = ds \<and> changed_calls rs = [] \<and>
     (\<forall>r \<in> set rs. fst (snd r) = (if has_user_type ps (fst r) Shelter then Alert_success else Redirected))"
proof (induction calls arbitrary: rs ds')
  case Nil
  then show ?case by (simp add: changed_calls_def)
next
  case (Cons c calls)
  obtain uid now where c: "c = (uid, now)" by (cases c)
  obtain rs0 ds0 where rest: "accept_calls numStr toLowerCase ps i calls ds = (rs0, ds0)"
    by (cases "accept_calls numStr toLowerCase ps i calls ds")
  from Cons.IH [OF Cons.prems(1) rest]
  have ih: "ds0 = ds" "changed_calls rs0 = []"
    "\<forall>r \<in> set rs0. fst (snd r) = (if has_user_type ps (fst r) Shelter then Alert_success else Redirected)"
    by simp_all
  from Cons.prems(2) c rest Cons.prems(1)
  have rs: "rs = (uid, (if has_user_type ps uid Shelter then Alert_success else Redirected), False) # rs0"
    and ds': "ds' = ds0"
    by (auto simp: perform_Accept_settled Let_def)
  show ?case using ih rs ds' by (auto simp: changed_calls_def)
qed

lemma accept_calls_winner:
  assumes "accept_calls numStr toLowerCase ps i calls ds = (rs, ds')"
  shows "length (changed_calls rs) \<le> 1 \<and>
         (\<forall>r \<in> set (changed_calls rs).
            \<exists>d. ds' i = Some d \<and> status d = Accepted \<and> shelter_id d = Some (fst r)) \<and>
         (\<forall>r \<in> set rs.
            fst (snd r) = (if has_user_type ps (fst r) Shelter then Alert_success else Redirected)) \<and>
         ((\<not> settled ds i \<and> (\<exists>c \<in> set calls. has_user_type ps (fst c) Shelter))
            \<longrightarrow> length (changed_calls rs) = 1)"
  using assms
proof (induction calls arbitrary: ds rs ds')
  case Nil
  then show ?case by (simp add: changed_calls_def)
next
  case (Cons c calls)
  obtain uid now where c: "c = (uid, now)" by (cases c)
  let ?r = "perform numStr toLowerCase ps now uid (Accept i) ds"
  obtain rs0 ds0 where rest: "accept_calls numStr toLowerCase ps i calls (snd ?r) = (rs0, ds0)"
    by (cases "accept_calls numStr toLowerCase ps i calls (snd ?r)")
  from Cons.prems c rest
  have rs: "rs = (uid, fst ?r, snd ?r i \<noteq> ds i) # rs0" and ds': "ds' = ds0"
    by (auto simp: Let_def)
  show ?case
  proof (cases "has_user_type ps uid Shelter \<and> \<not> settled ds i")
    case True
    then obtain d where d: "ds i = Some d" "status d = Pending"
      by (auto simp: settled_def split: option.splits)
    let ?d' = "d\<lparr>status := Accepted, shelter_id := Some uid, accepted_at := Some now\<rparr>"
    from True d have r: "?r = (Alert_success, ds(i \<mapsto> ?d'))"
      by (simp add: perform_Accept)
    have neq: "Some ?d' \<noteq> Some d"
    proof
      assume "Some ?d' = Some d"
      then have "status ?d' = status d" by simp
      with d(2) show False by simp
    qed
    have st: "settled (ds(i \<mapsto> ?d')) i" by (simp add: settled_def)
    from accept_calls_settled [OF st] rest r
    have after: "ds0 = ds(i \<mapsto> ?d')" "changed_calls rs0 = []"
      "\<forall>r \<in> set rs0. fst (snd r) = (if has_user_type ps (fst r) Shelter then Alert_success else Redirected)"
      by simp_all
    from rs r d neq have rs': "rs = (uid, Alert_success, True) # rs0"
      by simp
    show ?thesis
      using rs' after ds' True by (auto simp: changed_calls_def)
  next
    case False
    then have r: "?r = (if has_user_type ps uid Shelter then Alert_success else Redirected, ds)"
      by (auto simp: perform_Accept settled_def split: option.splits)
    from rest r have rest': "accept_calls numStr toLowerCase ps i calls ds = (rs0, ds0)" by simp
    note ih = Cons.IH [OF rest']
    from rs r have rs': "rs = (uid, (if has_user_type ps uid Shelter then Alert_success else Redirected), False) # rs0"
      by simp
    have cc: "changed_calls rs = changed_calls rs0"
      using rs' by (simp add: changed_calls_def)
    show ?thesis
      using ih rs' cc ds' False c by auto
  qed
qed






text \<open>The notification list never grows beyond ten entries, step by step.\<close>

lemma ui_step_length: "length prev \<le> 10 \<Longrightarrow> length (ui_step user profile prev e) \<le> 10"
  by (cases e) (auto simp: handleDonationChange_def markAsRead_def clearNotification_def
      intro: le_trans [OF length_filter_le] split: option.splits)

lemma foldl_ui_step_length:
  "length start \<le> 10 \<Longrightarrow> length (foldl (ui_step user profile) start events) \<le> 10"
  by (induction events arbitrary: start) (auto simp: ui_step_length)

text \<open>\<open>includes'\<close> is the occurrence of one string inside another; the loop of \<^verbatim>\<open>geocodeAddress\<close>, spelled out.\<close>

lemma startsWith_iff: "startsWith s t \<longleftrightarrow> (\<exists>q. s = t @ q)"
  by (induction s t rule: startsWith.induct) auto

lemma includes'_iff: "includes' s t \<longleftrightarrow> (\<exists>p q. s = p @ t @ q)"
proof (induction s)
  case Nil
  then show ?case by auto
next
  case (Cons x s)
  show ?case
  proof
    assume "includes' (x # s) t"
    then consider "startsWith (x # s) t" | "includes' s t" by auto
    then show "\<exists>p q. x # s = p @ t @ q"
    proof cases
      case 1
      then obtain q where "x # s = t @ q" by (auto simp: startsWith_iff)
      then have "x # s = [] @ t @ q" by simp
      then show ?thesis by blast
    next
      case 2
      with Cons.IH obtain p q where "s = p @ t @ q" by auto
      then have "x # s = (x # p) @ t @ q" by simp
      then show ?thesis by blast
    qed
  next
    assume "\<exists>p q. x # s = p @ t @ q"
    then obtain p q where pq: "x # s = p @ t @ q" by auto
    show "includes' (x # s) t"
    proof (cases p)
      case Nil
      with pq have "startsWith (x # s) t" by (auto simp: startsWith_iff)
      then show ?thesis by simp
    next
      case (Cons y p')
      with pq have "s = p' @ t @ q" by simp
      with Cons.IH have "includes' s t" by auto
      then show ?thesis by simp
    qed
  qed
qed

lemma geocodeAddress_chain:
  "geocodeAddress toLowerCase address = Some
     (if includes' (toLowerCase address) (toLowerCase ''New York'')
        then \<lparr>lat = 40.7128, lng = - 74.0060\<rparr>
      else if includes' (toLowerCase address) (toLowerCase ''Los Angeles'')
        then \<lparr>lat = 34.0522, lng = - 118.2437\<rparr>
      else if includes' (toLowerCase address) (toLowerCase ''Chicago'')
        then \<lparr>lat = 41.8781, lng = - 87.6298\<rparr>
      else if includes' (toLowerCase address) (toLowerCase ''Houston'')
        then \<lparr>lat = 29.7604, lng = - 95.3698\<rparr>
      else if includes' (toLowerCase address) (toLowerCase ''Phoenix'')
        then \<lparr>lat = 33.4484, lng = - 112.0740\<rparr>
      else \<lparr>lat = 37.7749, lng = - 122.4194\<rparr>)"
  by (simp add: geocodeAddress_def mockCoordinates_def default_coordinates_def)

lemma ascii_lower_append: "ascii_lower (s @ t) = ascii_lower s @ ascii_lower t"
  by (simp add: ascii_lower_def)

lemma ascii_lower_length: "length (ascii_lower s) = length s"
  by (simp add: ascii_lower_def)

lemma ascii_lower_alphabet:
  "ascii_lower ''ABCDEFGHIJKLMNOPQRSTUVWXYZ'' = ''abcdefghijklmnopqrstuvwxyz''"
  by (simp add: ascii_lower_def ascii_lower_char_def)

lemma ascii_lower_other:
  "c \<notin> set ''ABCDEFGHIJKLMNOPQRSTUVWXYZ'' \<Longrightarrow> ascii_lower [c] = [c]"
  by (simp add: ascii_lower_def ascii_lower_char_def)

lemma ascii_lower_names:
  "map ascii_lower [''New York'', ''Los Angeles'', ''Chicago'', ''Houston'', ''Phoenix'']
     = [''new york'', ''los angeles'', ''chicago'', ''houston'', ''phoenix'']"
  by (simp add: ascii_lower_def ascii_lower_char_def)

section \<open>The read policy\<close>

lemma select_policy_iff:
  "select_policy ps uid d \<longleftrightarrow>
     uid = donor_id d \<or>
     status d = Pending \<or>
     (has_user_type ps uid Shelter \<and> shelter_id d = Some uid) \<or>
     (has_user_type ps uid Volunteer \<and> (status d = Accepted \<or> status d = Completed))"
  unfolding select_policy_def donors_can_read_own_donations_def
    shelters_can_read_pending_donations_def volunteers_can_read_accepted_donations_def
  by auto

lemmas sample_defs = sample_profiles_def sample_profile_def sample_donations_def
  sample_pending_def sample_form_def


lemma sample_accepted_x1:
  "\<exists>d. sample_accepted ''x1'' = Some d \<and> status d = Accepted \<and> accepted_at d = Some 2 \<and> completed_at d = None"
  by (simp add: sample_accepted_def sample_created_def perform_Create perform_Accept has_user_type_def sample_defs Let_def inserted_row_def)

lemma sample_completed_x1:
  "\<exists>d. sample_completed ''x1'' = Some d \<and> status d = Completed \<and> accepted_at d = Some 2 \<and> completed_at d = Some 3"
  by (simp add: sample_completed_def sample_accepted_def sample_created_def perform_Create perform_Accept perform_Complete has_user_type_def sample_defs Let_def inserted_row_def)

lemma sample_completed_reachable: "reachable sample_completed"
  unfolding sample_completed_def sample_accepted_def sample_created_def
  by (intro reachable.intros)


lemma sample_events_run:
  "map timestamp (notifications_after (Some ''s1'') (Some (sample_profile ''s1'' Shelter)) sample_events)
     = [10, 9, 8, 7, 6, 5, 4, 3, 2, 1]"
  by (simp add: notifications_after_def sample_events_def handleDonationChange_def
      sample_profile_def)

lemma sample_address_lower:
  "ascii_lower ''5 MAIN ST, CHICAGO'' = ''5 main st, chicago''"
  by (simp add: ascii_lower_def ascii_lower_char_def)

lemma sample_address_matches:
  "\<not> includes' ''5 main st, chicago'' ''new york'' \<and>
   \<not> includes' ''5 main st, chicago'' ''los angeles'' \<and>
   includes' ''5 main st, chicago'' ''chicago''"
  by simp

lemma sample_address_elsewhere:
  "ascii_lower ''12 Elm Rd'' = ''12 elm rd'' \<and>
   \<not> includes' ''12 elm rd'' ''new york'' \<and>
   \<not> includes' ''12 elm rd'' ''los angeles'' \<and>
   \<not> includes' ''12 elm rd'' ''chicago'' \<and>
   \<not> includes' ''12 elm rd'' ''houston'' \<and>
   \<not> includes' ''12 elm rd'' ''phoenix''"
  by (simp add: ascii_lower_def ascii_lower_char_def)

text \<open>
  The volunteer \<^verbatim>\<open>v1\<close> is not the donor of the pending sample donation: the policies
  let \<^verbatim>\<open>v1\<close> read it, the rule that asks for the shelter role in the pending case does
  not.
\<close>

theorem read_policy_counterexample:
  "select_policy sample_profiles ''v1'' sample_pending \<and>
   \<not> spec_read_allowed sample_profiles ''v1'' sample_pending"
  by (simp add: select_policy_iff spec_read_allowed_def has_user_type_def sample_defs)

text \<open>
  C5, as the policies have it: a read of a donation by an actor returns the record if and
  only if the actor is its donor, or its status is pending (whatever the role of the
  actor), or the actor has the shelter role and is the bound \<^verbatim>\<open>shelter_id\<close>, or the
  actor has the volunteer role and the status is accepted or completed.
\<close>

theorem read_policy:
  "select_by_id ps uid i ds = Some d \<longleftrightarrow>
     ds i = Some d \<and>
     (uid = donor_id d \<or>
      status d = Pending \<or>
      (has_user_type ps uid Shelter \<and> shelter_id d = Some uid) \<or>
      (has_user_type ps uid Volunteer \<and> (status d = Accepted \<or> status d = Completed)))"
  by (auto simp: select_by_id_def select_policy_iff split: option.splits)

section \<open>The lifecycle\<close>

text \<open>
  The part of the single-winner rule the row policy gives: in a run of any number of
  Accept calls on one donation, at most one call changes the record, and after the run
  the record is accepted with the caller of that call as its \<^verbatim>\<open>shelter_id\<close>. If the
  donation is pending and some caller is a shelter, exactly one call changes it.
\<close>

lemma accept_at_most_one_change:
  assumes "accept_calls numStr toLowerCase ps i calls ds = (rs, ds')"
  shows "length (changed_calls rs) \<le> 1 \<and>
         (\<forall>r \<in> set (changed_calls rs).
            \<exists>d. ds' i = Some d \<and> status d = Accepted \<and> shelter_id d = Some (fst r)) \<and>
         ((\<exists>d. ds i = Some d \<and> status d = Pending) \<and>
          (\<exists>c \<in> set calls. has_user_type ps (fst c) Shelter)
            \<longrightarrow> length (changed_calls rs) = 1)"
proof -
  have "(\<exists>d. ds i = Some d \<and> status d = Pending) \<longleftrightarrow> \<not> settled ds i"
    by (auto simp: settled_def split: option.splits)
  with accept_calls_winner [OF assms] show ?thesis
    by auto
qed

text \<open>
  C1 fails in the handler. Two shelters accept the pending sample donation from the
  requests page, \<^verbatim>\<open>s1\<close> first. The update of \<^verbatim>\<open>s2\<close> has no target row and comes back
  without an error, and \<^verbatim>\<open>acceptDonation\<close>, which looks at the error only, shows
  \<^verbatim>\<open>s2\<close> the success alert of a donation accepted, while the record stays with \<^verbatim>\<open>s1\<close>:
  the call that lost is not answered by a failure.
\<close>

theorem accept_loser_told_success:
  "acceptDonation sample_profiles 2 (Some ''s1'') (Some (sample_profile ''s1'' Shelter)) ''x1''
     sample_donations = (Alert_success, sample_taken) \<and>
   acceptDonation sample_profiles 3 (Some ''s2'') (Some (sample_profile ''s2'' Shelter)) ''x1''
     sample_taken = (Alert_success, sample_taken) \<and>
   map_option shelter_id (sample_taken ''x1'') = Some (Some ''s1'')"
  by (simp add: acceptDonation_def update_donations_def select_policy_iff update_using_def
      shelters_can_update_using_def volunteers_can_update_using_def update_check_def
      shelters_can_update_check_def volunteers_can_update_check_def
      update_donation_timestamps_def foreign_keys_on_update_def references_profile_def
      has_user_type_def sample_taken_def sample_defs Let_def)

text \<open>
  C3: whatever operation (Create, Accept, Complete) whichever caller performs on
  whatever table, a record that is there stays there and its status stays or takes one
  step forward, pending to accepted or accepted to completed: never from accepted back to
  pending, never away from completed, never from pending straight to completed.
\<close>

theorem status_moves_forward:
  assumes "ds i = Some d"
  shows "\<exists>d'. snd (perform numStr toLowerCase ps now uid op ds) i = Some d' \<and>
           moves_forward (status d) (status d') \<and>
           (status d = Accepted \<longrightarrow> status d' \<noteq> Pending) \<and>
           (status d = Completed \<longrightarrow> status d' = Completed) \<and>
           (status d = Pending \<longrightarrow> status d' \<noteq> Completed)"
proof (cases op)
  case (Create new_id coordinates fd)
  with assms show ?thesis
    by (auto simp: perform_Create moves_forward_def Let_def)
next
  case (Accept j)
  with assms show ?thesis
    by (auto simp: perform_Accept moves_forward_def split: option.splits)
next
  case (Complete j)
  with assms show ?thesis
    by (auto simp: perform_Complete moves_forward_def split: option.splits)
qed

theorem status_moves_forward_witness:
  "sample_donations ''x1'' = Some sample_pending \<and>
   (\<exists>d'. snd (perform sample_numStr ascii_lower sample_profiles 2 ''s1'' (Accept ''x1'') sample_donations) ''x1''
            = Some d' \<and> status d' = Accepted)"
proof -
  have h: "sample_donations ''x1'' = Some sample_pending"
    by (simp add: sample_defs)
  from status_moves_forward [where ds = sample_donations and i = "''x1''" and d = sample_pending
      and numStr = sample_numStr and toLowerCase = ascii_lower and ps = sample_profiles and now = 2 and uid = "''s1''"
      and op = "Accept ''x1''", OF h]
  show ?thesis
    using h by (auto simp: perform_Accept has_user_type_def sample_defs)
qed

text \<open>
  C4: in every table the application can reach, every record has \<^verbatim>\<open>accepted_at\<close> set
  exactly when its status is accepted or completed and \<^verbatim>\<open>completed_at\<close> set exactly when
  its status is completed; and the same holds of every record after one more Create,
  Accept or Complete.
\<close>

theorem timestamps_follow_status:
  assumes "reachable ds"
  shows "(\<forall>i d. ds i = Some d \<longrightarrow> timestamps_invariant d) \<and>
         (\<forall>i d'. snd (perform numStr toLowerCase ps now uid op ds) i = Some d' \<longrightarrow> timestamps_invariant d')"
proof -
  have now: "\<And>i d. ds i = Some d \<Longrightarrow> timestamps_invariant d"
    using assms reachable_timestamps by blast
  then show ?thesis
    using perform_timestamps by blast
qed

theorem timestamps_follow_status_witness:
  "reachable sample_completed \<and>
   (\<exists>d. sample_completed ''x1'' = Some d \<and> status d = Completed \<and>
         accepted_at d = Some 2 \<and> completed_at d = Some 3 \<and> timestamps_invariant d)"
proof -
  from timestamps_follow_status [OF sample_completed_reachable]
  have "\<And>i d. sample_completed i = Some d \<Longrightarrow> timestamps_invariant d" by blast
  with sample_completed_x1 sample_completed_reachable show ?thesis by blast
qed




text \<open>
  C6: a Create by a donor (with a fresh id for the row) shows the success modal with the
  new record, and a read of that id by the donor right afterwards returns this record:
  status pending, no shelter, no \<^verbatim>\<open>accepted_at\<close>, no \<^verbatim>\<open>completed_at\<close>. This holds
  whatever the form fields contain, so in particular when the required ones are not empty.
\<close>

theorem create_then_read:
  assumes "has_user_type ps uid Donor" and "ds new_id = None"
  shows "\<exists>row ds'. perform numStr toLowerCase ps now uid (Create new_id coordinates fd) ds
                      = (Success_modal row, ds') \<and>
           select_by_id ps uid new_id ds' = Some row \<and>
           status row = Pending \<and> shelter_id row = None \<and>
           accepted_at row = None \<and> completed_at row = None"
  using assms
  by (simp add: perform_Create Let_def select_by_id_def select_policy_iff inserted_row_def)

theorem create_then_read_witness:
  "has_user_type sample_profiles ''d1'' Donor \<and>
   (\<exists>row ds'. perform sample_numStr ascii_lower sample_profiles 1 ''d1'' (Create ''x1'' None sample_form) Map.empty
                 = (Success_modal row, ds') \<and>
      select_by_id sample_profiles ''d1'' ''x1'' ds' = Some row \<and> status row = Pending)"
proof -
  have h: "has_user_type sample_profiles ''d1'' Donor"
    by (simp add: has_user_type_def sample_defs)
  have f: "Map.empty ''x1'' = (None :: donation option)" by simp
  from create_then_read [where ps = sample_profiles and uid = "''d1''" and ds = Map.empty
      and new_id = "''x1''" and numStr = sample_numStr and toLowerCase = ascii_lower and now = 1 and coordinates = None
      and fd = sample_form, OF h f] h
  show ?thesis by auto
qed

section \<open>Notifications\<close>

text \<open>
  C7: for a recipient with identity \<open>uid\<close> and a profile, the dispatcher produces a
  notification exactly in four cases: an insert when the recipient has the shelter role;
  an update to accepted when the recipient is the donation's donor; an update to accepted
  when the recipient has the volunteer role; an update to completed when the recipient is
  the donation's donor. In every other case, a delete among them, it produces none. An
  update to a status is a change event whose new status is that one and whose old status
  is not.
\<close>

theorem dispatcher_cases:
  "notification_for now (Some uid) profile p \<noteq> None \<longleftrightarrow> spec_notifies uid profile p"
  by (cases p) (auto simp: spec_notifies_def)

theorem dispatcher_cases_witness:
  "spec_notifies ''d1'' (sample_profile ''d1'' Donor)
     (UPDATE (Some Pending) (sample_pending\<lparr>status := Accepted, shelter_id := Some ''s1''\<rparr>)) \<and>
   notification_for 5 (Some ''d1'') (sample_profile ''d1'' Donor)
     (UPDATE (Some Pending) (sample_pending\<lparr>status := Accepted, shelter_id := Some ''s1''\<rparr>)) \<noteq> None \<and>
   \<not> spec_notifies ''s2'' (sample_profile ''s2'' Shelter)
     (UPDATE (Some Pending) (sample_pending\<lparr>status := Accepted, shelter_id := Some ''s1''\<rparr>)) \<and>
   notification_for 5 (Some ''s2'') (sample_profile ''s2'' Shelter)
     (UPDATE (Some Pending) (sample_pending\<lparr>status := Accepted, shelter_id := Some ''s1''\<rparr>)) = None"
proof -
  let ?p = "UPDATE (Some Pending) (sample_pending\<lparr>status := Accepted, shelter_id := Some ''s1''\<rparr>)"
  have a: "spec_notifies ''d1'' (sample_profile ''d1'' Donor) ?p"
    by (simp add: spec_notifies_def sample_defs)
  have b: "\<not> spec_notifies ''s2'' (sample_profile ''s2'' Shelter) ?p"
    by (simp add: spec_notifies_def sample_defs)
  from a b
    dispatcher_cases [of 5 "''d1''" "sample_profile ''d1'' Donor" ?p]
    dispatcher_cases [of 5 "''s2''" "sample_profile ''s2'' Shelter" ?p]
  show ?thesis by blast
qed

text \<open>
  C8: whatever events a recipient's notification list has gone through, it holds at most
  ten notifications. A change event that produces a notification puts it at the head and
  keeps the first nine of the list before; when that list held ten, its last, the oldest,
  is the one dropped.
\<close>

theorem notifications_capped:
  "length (notifications_after user profile events) \<le> 10 \<and>
   (\<forall>now p pr n.
      profile = Some pr \<longrightarrow> notification_for now user pr p = Some n \<longrightarrow>
        notifications_after user profile (events @ [Change now p])
          = n # take 9 (notifications_after user profile events) \<and>
        (length (notifications_after user profile events) = 10 \<longrightarrow>
           notifications_after user profile (events @ [Change now p])
             = n # butlast (notifications_after user profile events)))"
proof -
  have len: "length (notifications_after user profile events) \<le> 10"
    by (simp add: notifications_after_def foldl_ui_step_length)
  have bl: "\<And>xs :: notification list. length xs = 10 \<Longrightarrow> take 9 xs = butlast xs"
    by (simp add: butlast_conv_take)
  show ?thesis
    using len bl by (auto simp: notifications_after_def handleDonationChange_def)
qed

theorem notifications_capped_witness:
  "length (notifications_after (Some ''s1'') (Some (sample_profile ''s1'' Shelter)) sample_events) = 10 \<and>
   map timestamp (notifications_after (Some ''s1'') (Some (sample_profile ''s1'' Shelter))
                    (sample_events @ [Change 11 (INSERT sample_pending)]))
     = [11, 10, 9, 8, 7, 6, 5, 4, 3, 2]"
proof -
  let ?A = "notifications_after (Some ''s1'') (Some (sample_profile ''s1'' Shelter)) sample_events"
  have "length (map timestamp ?A) = length [10 :: nat, 9, 8, 7, 6, 5, 4, 3, 2, 1]"
    by (simp only: sample_events_run)
  then have len: "length ?A = 10"
    by simp
  obtain n where n: "notification_for 11 (Some ''s1'') (sample_profile ''s1'' Shelter)
                       (INSERT sample_pending) = Some n" "timestamp n = 11"
    by (simp add: sample_profile_def)
  from notifications_capped [of "Some ''s1''" "Some (sample_profile ''s1'' Shelter)" sample_events] n(1) len
  have "notifications_after (Some ''s1'') (Some (sample_profile ''s1'' Shelter))
          (sample_events @ [Change 11 (INSERT sample_pending)]) = n # butlast ?A"
    by blast
  then show ?thesis
    using len n(2) sample_events_run by (simp add: map_butlast)
qed

section \<open>Profiles\<close>

text \<open>
  The donor \<^verbatim>\<open>d1\<close> updates the own profile with a new \<^verbatim>\<open>user_type\<close>: the update
  goes through and the profile is a shelter's.
\<close>

theorem role_update_counterexample:
  "sample_profiles ''d1'' = Some (sample_profile ''d1'' Donor) \<and>
   updateProfile (Some ''d1'') sample_role_change sample_profiles
     = Inr (Some (sample_profile ''d1'' Shelter),
            sample_profiles(''d1'' \<mapsto> sample_profile ''d1'' Shelter))"
  by (simp add: updateProfile_def update_profiles_def apply_updates_def fetchProfile_def
      sample_role_change_def sample_defs Let_def)

text \<open>
  C9, as the code has it: an \<^verbatim>\<open>updateProfile\<close> that succeeds leaves \<^verbatim>\<open>user_type\<close> as
  it was when the update carries no \<^verbatim>\<open>user_type\<close> field, and sets it to the value of
  that field when it carries one.
\<close>

theorem role_update:
  assumes "ps uid = Some p" and "profile_id p = uid"
    and "updateProfile (Some uid) updates ps = Inr (profile', ps')"
  shows "\<exists>p'. ps' uid = Some p' \<and> profile' = Some p' \<and>
           user_type p' = (case updates_user_type updates of None \<Rightarrow> user_type p | Some t \<Rightarrow> t)"
  using assms
  by (auto simp: updateProfile_def update_profiles_def apply_updates_def fetchProfile_def Let_def
      split: if_splits option.splits)

theorem role_update_witness:
  "sample_profiles ''d1'' = Some (sample_profile ''d1'' Donor) \<and>
   updateProfile (Some ''d1'') sample_rename sample_profiles
     = Inr (Some ((sample_profile ''d1'' Donor)\<lparr>name := ''Dana''\<rparr>),
            sample_profiles(''d1'' \<mapsto> (sample_profile ''d1'' Donor)\<lparr>name := ''Dana''\<rparr>)) \<and>
   user_type ((sample_profile ''d1'' Donor)\<lparr>name := ''Dana''\<rparr>) = Donor"
proof -
  have h1: "sample_profiles ''d1'' = Some (sample_profile ''d1'' Donor)"
    by (simp add: sample_defs)
  have h2: "profile_id (sample_profile ''d1'' Donor) = ''d1''"
    by (simp add: sample_defs)
  have h3: "updateProfile (Some ''d1'') sample_rename sample_profiles
     = Inr (Some ((sample_profile ''d1'' Donor)\<lparr>name := ''Dana''\<rparr>),
            sample_profiles(''d1'' \<mapsto> (sample_profile ''d1'' Donor)\<lparr>name := ''Dana''\<rparr>))"
    by (simp add: updateProfile_def update_profiles_def apply_updates_def fetchProfile_def
      sample_rename_def sample_defs Let_def)
  from role_update [where ps = sample_profiles and uid = "''d1''" and updates = sample_rename, OF h1 h2 h3]
  have "user_type ((sample_profile ''d1'' Donor)\<lparr>name := ''Dana''\<rparr>) = Donor"
    by (simp add: sample_rename_def sample_defs)
  with h1 h3 show ?thesis by simp
qed

section \<open>Geocoding\<close>

text \<open>
  C10: for every address, and whatever \<^verbatim>\<open>toLowerCase\<close> does, \<^verbatim>\<open>geocodeAddress\<close>
  returns coordinates and never null: those of the first of New York, Los Angeles,
  Chicago, Houston and Phoenix whose name in lower case occurs in the address in lower
  case, and the San Francisco default (37.7749, -122.4194) when none does. Where
  \<^verbatim>\<open>toLowerCase\<close> makes the letters A to Z of the address small and leaves the rest, and
  turns the five names into new york, los angeles, chicago, houston and phoenix (as the
  language's does for ASCII text), a city matches exactly when its name in small letters
  occurs in the address with its capital letters made small: the case of the letters in
  the address does not matter. So a donor's Create with a non-empty pickup location stores
  a record whose \<^verbatim>\<open>pickup_coordinates\<close> is not null.
\<close>

theorem geocode_never_null:
  "geocodeAddress toLowerCase address \<noteq> None \<and>
   geocodeAddress toLowerCase address = Some
     (if \<exists>p q. toLowerCase address = p @ toLowerCase ''New York'' @ q
        then \<lparr>lat = 40.7128, lng = - 74.0060\<rparr>
      else if \<exists>p q. toLowerCase address = p @ toLowerCase ''Los Angeles'' @ q
        then \<lparr>lat = 34.0522, lng = - 118.2437\<rparr>
      else if \<exists>p q. toLowerCase address = p @ toLowerCase ''Chicago'' @ q
        then \<lparr>lat = 41.8781, lng = - 87.6298\<rparr>
      else if \<exists>p q. toLowerCase address = p @ toLowerCase ''Houston'' @ q
        then \<lparr>lat = 29.7604, lng = - 95.3698\<rparr>
      else if \<exists>p q. toLowerCase address = p @ toLowerCase ''Phoenix'' @ q
        then \<lparr>lat = 33.4484, lng = - 112.0740\<rparr>
      else \<lparr>lat = 37.7749, lng = - 122.4194\<rparr>) \<and>
   (toLowerCase address = ascii_lower address \<and>
    map toLowerCase [''New York'', ''Los Angeles'', ''Chicago'', ''Houston'', ''Phoenix'']
      = [''new york'', ''los angeles'', ''chicago'', ''houston'', ''phoenix''] \<longrightarrow>
      geocodeAddress toLowerCase address = Some
        (if \<exists>p q. ascii_lower address = p @ ''new york'' @ q
           then \<lparr>lat = 40.7128, lng = - 74.0060\<rparr>
         else if \<exists>p q. ascii_lower address = p @ ''los angeles'' @ q
           then \<lparr>lat = 34.0522, lng = - 118.2437\<rparr>
         else if \<exists>p q. ascii_lower address = p @ ''chicago'' @ q
           then \<lparr>lat = 41.8781, lng = - 87.6298\<rparr>
         else if \<exists>p q. ascii_lower address = p @ ''houston'' @ q
           then \<lparr>lat = 29.7604, lng = - 95.3698\<rparr>
         else if \<exists>p q. ascii_lower address = p @ ''phoenix'' @ q
           then \<lparr>lat = 33.4484, lng = - 112.0740\<rparr>
         else \<lparr>lat = 37.7749, lng = - 122.4194\<rparr>)) \<and>
   (ascii_lower ''ABCDEFGHIJKLMNOPQRSTUVWXYZ'' = ''abcdefghijklmnopqrstuvwxyz'' \<and>
    (\<forall>c. c \<notin> set ''ABCDEFGHIJKLMNOPQRSTUVWXYZ'' \<longrightarrow> ascii_lower [c] = [c]) \<and>
    (\<forall>s t. ascii_lower (s @ t) = ascii_lower s @ ascii_lower t) \<and>
    (\<forall>s. length (ascii_lower s) = length s)) \<and>
   (has_user_type ps uid Donor \<and> ds new_id = None \<and> form_pickup_location fd \<noteq> [] \<longrightarrow>
      (\<exists>row. snd (perform numStr toLowerCase ps now uid (Create new_id coordinates fd) ds) new_id
                = Some row \<and>
             pickup_location row = form_pickup_location fd \<and>
             pickup_coordinates row \<noteq> None))"
proof -
  have chain: "geocodeAddress toLowerCase address = Some
     (if \<exists>p q. toLowerCase address = p @ toLowerCase ''New York'' @ q
        then \<lparr>lat = 40.7128, lng = - 74.0060\<rparr>
      else if \<exists>p q. toLowerCase address = p @ toLowerCase ''Los Angeles'' @ q
        then \<lparr>lat = 34.0522, lng = - 118.2437\<rparr>
      else if \<exists>p q. toLowerCase address = p @ toLowerCase ''Chicago'' @ q
        then \<lparr>lat = 41.8781, lng = - 87.6298\<rparr>
      else if \<exists>p q. toLowerCase address = p @ toLowerCase ''Houston'' @ q
        then \<lparr>lat = 29.7604, lng = - 95.3698\<rparr>
      else if \<exists>p q. toLowerCase address = p @ toLowerCase ''Phoenix'' @ q
        then \<lparr>lat = 33.4484, lng = - 112.0740\<rparr>
      else \<lparr>lat = 37.7749, lng = - 122.4194\<rparr>)"
    unfolding includes'_iff [symmetric] by (rule geocodeAddress_chain)
  have some: "geocodeAddress toLowerCase address \<noteq> None"
    by (simp add: geocodeAddress_def split: option.splits)
  have ascii: "toLowerCase address = ascii_lower address \<and>
    map toLowerCase [''New York'', ''Los Angeles'', ''Chicago'', ''Houston'', ''Phoenix'']
      = [''new york'', ''los angeles'', ''chicago'', ''houston'', ''phoenix''] \<longrightarrow>
      geocodeAddress toLowerCase address = Some
        (if \<exists>p q. ascii_lower address = p @ ''new york'' @ q
           then \<lparr>lat = 40.7128, lng = - 74.0060\<rparr>
         else if \<exists>p q. ascii_lower address = p @ ''los angeles'' @ q
           then \<lparr>lat = 34.0522, lng = - 118.2437\<rparr>
         else if \<exists>p q. ascii_lower address = p @ ''chicago'' @ q
           then \<lparr>lat = 41.8781, lng = - 87.6298\<rparr>
         else if \<exists>p q. ascii_lower address = p @ ''houston'' @ q
           then \<lparr>lat = 29.7604, lng = - 95.3698\<rparr>
         else if \<exists>p q. ascii_lower address = p @ ''phoenix'' @ q
           then \<lparr>lat = 33.4484, lng = - 112.0740\<rparr>
         else \<lparr>lat = 37.7749, lng = - 122.4194\<rparr>)"
  proof
    assume h: "toLowerCase address = ascii_lower address \<and>
      map toLowerCase [''New York'', ''Los Angeles'', ''Chicago'', ''Houston'', ''Phoenix'']
        = [''new york'', ''los angeles'', ''chicago'', ''houston'', ''phoenix'']"
    then have names: "toLowerCase ''New York'' = ''new york''"
      "toLowerCase ''Los Angeles'' = ''los angeles''" "toLowerCase ''Chicago'' = ''chicago''"
      "toLowerCase ''Houston'' = ''houston''" "toLowerCase ''Phoenix'' = ''phoenix''"
      by simp_all
    from h have addr: "toLowerCase address = ascii_lower address" by simp
    from chain show "geocodeAddress toLowerCase address = Some
        (if \<exists>p q. ascii_lower address = p @ ''new york'' @ q
           then \<lparr>lat = 40.7128, lng = - 74.0060\<rparr>
         else if \<exists>p q. ascii_lower address = p @ ''los angeles'' @ q
           then \<lparr>lat = 34.0522, lng = - 118.2437\<rparr>
         else if \<exists>p q. ascii_lower address = p @ ''chicago'' @ q
           then \<lparr>lat = 41.8781, lng = - 87.6298\<rparr>
         else if \<exists>p q. ascii_lower address = p @ ''houston'' @ q
           then \<lparr>lat = 29.7604, lng = - 95.3698\<rparr>
         else if \<exists>p q. ascii_lower address = p @ ''phoenix'' @ q
           then \<lparr>lat = 33.4484, lng = - 112.0740\<rparr>
         else \<lparr>lat = 37.7749, lng = - 122.4194\<rparr>)"
      unfolding names addr .
  qed
  have lower: "ascii_lower ''ABCDEFGHIJKLMNOPQRSTUVWXYZ'' = ''abcdefghijklmnopqrstuvwxyz'' \<and>
    (\<forall>c. c \<notin> set ''ABCDEFGHIJKLMNOPQRSTUVWXYZ'' \<longrightarrow> ascii_lower [c] = [c]) \<and>
    (\<forall>s t. ascii_lower (s @ t) = ascii_lower s @ ascii_lower t) \<and>
    (\<forall>s. length (ascii_lower s) = length s)"
    using ascii_lower_alphabet ascii_lower_other ascii_lower_append ascii_lower_length
    by blast
  have stored: "has_user_type ps uid Donor \<and> ds new_id = None \<and> form_pickup_location fd \<noteq> [] \<longrightarrow>
      (\<exists>row. snd (perform numStr toLowerCase ps now uid (Create new_id coordinates fd) ds) new_id
                = Some row \<and>
             pickup_location row = form_pickup_location fd \<and>
             pickup_coordinates row \<noteq> None)"
    by (auto simp: perform_Create Let_def inserted_row_def geocodeAddress_def split: option.splits)
  show ?thesis
    by (rule conjI [OF some conjI [OF chain conjI [OF ascii conjI [OF lower stored]]]])
qed

theorem geocode_never_null_witness:
  "geocodeAddress ascii_lower ''5 MAIN ST, CHICAGO'' = Some \<lparr>lat = 41.8781, lng = - 87.6298\<rparr> \<and>
   geocodeAddress ascii_lower ''12 Elm Rd'' = Some \<lparr>lat = 37.7749, lng = - 122.4194\<rparr> \<and>
   (\<exists>row. sample_created ''x1'' = Some row \<and>
          pickup_location row = ''5 Main St, Chicago'' \<and> pickup_coordinates row \<noteq> None)"
proof -
  have names: "map ascii_lower [''New York'', ''Los Angeles'', ''Chicago'', ''Houston'', ''Phoenix'']
     = [''new york'', ''los angeles'', ''chicago'', ''houston'', ''phoenix'']"
    by (rule ascii_lower_names)
  have donor: "has_user_type sample_profiles ''d1'' Donor"
    by (simp add: has_user_type_def sample_defs)
  have fresh: "Map.empty ''x1'' = (None :: donation option)"
    by simp
  have filled: "form_pickup_location sample_form \<noteq> []"
    by (simp add: sample_form_def)
  have h1: "ascii_lower ''5 MAIN ST, CHICAGO'' = ascii_lower ''5 MAIN ST, CHICAGO'' \<and>
    map ascii_lower [''New York'', ''Los Angeles'', ''Chicago'', ''Houston'', ''Phoenix'']
      = [''new york'', ''los angeles'', ''chicago'', ''houston'', ''phoenix'']"
    using names by simp
  have h2: "ascii_lower ''12 Elm Rd'' = ascii_lower ''12 Elm Rd'' \<and>
    map ascii_lower [''New York'', ''Los Angeles'', ''Chicago'', ''Houston'', ''Phoenix'']
      = [''new york'', ''los angeles'', ''chicago'', ''houston'', ''phoenix'']"
    using names by simp
  note eq1 = geocode_never_null [of ascii_lower "''5 MAIN ST, CHICAGO''",
      THEN conjunct2, THEN conjunct2, THEN conjunct1, THEN mp, OF h1]
  note eq2 = geocode_never_null [of ascii_lower "''12 Elm Rd''",
      THEN conjunct2, THEN conjunct2, THEN conjunct1, THEN mp, OF h2]
  have a: "geocodeAddress ascii_lower ''5 MAIN ST, CHICAGO'' = Some \<lparr>lat = 41.8781, lng = - 87.6298\<rparr>"
    unfolding eq1 includes'_iff [symmetric] sample_address_lower
    using sample_address_matches by simp
  have b: "geocodeAddress ascii_lower ''12 Elm Rd'' = Some \<lparr>lat = 37.7749, lng = - 122.4194\<rparr>"
    unfolding eq2 includes'_iff [symmetric]
    using sample_address_elsewhere by simp
  from geocode_never_null [where ps = sample_profiles and uid = "''d1''" and ds = Map.empty
      and new_id = "''x1''" and fd = sample_form and numStr = sample_numStr
      and toLowerCase = ascii_lower and now = 1 and coordinates = None] donor fresh filled
  have c: "\<exists>row. sample_created ''x1'' = Some row \<and>
             pickup_location row = ''5 Main St, Chicago'' \<and> pickup_coordinates row \<noteq> None"
    unfolding sample_created_def by (simp add: sample_form_def)
  from a b c show ?thesis by simp
qed


end
